theory Spec2Isabelle
  imports Complex_Main
begin

section \<open>Text, tokens and constants of \<open>chat.py\<close>\<close>

text \<open>
  A Python \<open>str\<close> is a sequence of Unicode code points and \<open>len\<close> counts code points, so
  text is modelled as a list of code points. \<open>lit\<close> turns an ASCII literal of the source
  into such a list.
\<close>

type_synonym str = "nat list"

definition lit :: "string \<Rightarrow> str" where
  "lit s = map of_char s"

text \<open>
  \<open>ENCODER = tiktoken.get_encoding("cl100k_base")\<close> is a third-party tokenizer. Its two
  operations are parameters of every function that measures text: \<open>encode\<close> turns text into
  a list of token ids and \<open>decode\<close> turns token ids back into text.
\<close>

record tokenizer =
  encode :: "str \<Rightarrow> nat list"
  decode :: "nat list \<Rightarrow> str"

definition NUM_TOKENS :: int where
  "NUM_TOKENS = 4095"

definition HISTORY_FRACTION :: rat where
  "HISTORY_FRACTION = 1 / 4"

definition CONTEXT_FRACTION :: rat where
  "CONTEXT_FRACTION = 1 / 2"

definition STANDARD_K :: nat where
  "STANDARD_K = 10"

text \<open>Python's \<open>int(x)\<close> on a number: truncation towards zero.\<close>

definition py_int :: "rat \<Rightarrow> int" where
  "py_int r = (if 0 \<le> r then \<lfloor>r\<rfloor> else \<lceil>r\<rceil>)"

definition context_limit :: int where
  "context_limit = py_int (of_int NUM_TOKENS * CONTEXT_FRACTION)"

definition history_limit :: int where
  "history_limit = py_int (of_int NUM_TOKENS * HISTORY_FRACTION)"

section \<open>\<open>cap\<close>: limit a string to a number of tokens\<close>

definition cap :: "tokenizer \<Rightarrow> str \<Rightarrow> int \<Rightarrow> str" where
  "cap tk text max_tokens =
     (if max_tokens \<le> 0 then lit ''...''
      else
        let encoded_text = encode tk text in
        if int (length encoded_text) \<le> max_tokens then text
        else decode tk (take (nat max_tokens) encoded_text) @ lit '' ...'')"

text \<open>
  A tokenizer to evaluate the functions on concrete inputs: one token per code point.
\<close>

definition codepoint_tokenizer :: tokenizer where
  "codepoint_tokenizer = \<lparr>encode = (\<lambda>s. s), decode = (\<lambda>ts. ts)\<rparr>"


section \<open>String helpers\<close>

datatype error = ValueError str | Exception str

text \<open>\<open>str(e)\<close> of an exception raised with a single message argument.\<close>

fun error_str :: "error \<Rightarrow> str" where
  "error_str (ValueError m) = m"
| "error_str (Exception m) = m"

text \<open>\<open>chr(i)\<close>: a one-character string, or ValueError outside the Unicode range.\<close>

definition py_chr :: "nat \<Rightarrow> error + str" where
  "py_chr i =
     (if i < 1114112 then Inr [i]
      else Inl (ValueError (lit ''chr() arg not in range(0x110000)'')))"

text \<open>\<open>sep.join(xs)\<close>.\<close>

fun join :: "str \<Rightarrow> str list \<Rightarrow> str" where
  "join sep [] = []"
| "join sep [x] = x"
| "join sep (x # y # ys) = x @ sep @ join sep (y # ys)"

text \<open>The code points for which \<open>str.isspace\<close> holds; \<open>str.strip()\<close> removes them at both ends.\<close>

definition is_space :: "nat \<Rightarrow> bool" where
  "is_space c \<longleftrightarrow>
     (9 \<le> c \<and> c \<le> 13) \<or> (28 \<le> c \<and> c \<le> 32) \<or> c = 133 \<or> c = 160 \<or> c = 5760 \<or>
     (8192 \<le> c \<and> c \<le> 8202) \<or> c = 8232 \<or> c = 8233 \<or> c = 8239 \<or> c = 8287 \<or> c = 12288"

definition strip :: "str \<Rightarrow> str" where
  "strip s = rev (dropWhile is_space (rev (dropWhile is_space s)))"

definition is_digit :: "nat \<Rightarrow> bool" where
  "is_digit c \<longleftrightarrow> 48 \<le> c \<and> c \<le> 57"

text \<open>
  \<open>re.sub(r"\[[0-9]+\]", "[x]", content)\<close>: scanning from the left, an opening bracket
  (code point 91) followed by one or more ASCII digits and a closing bracket (93) is
  replaced by \<open>[x]\<close> and the scan goes on after it; any other character is copied. The
  digits are taken greedily, and since a closing bracket is no digit a shorter run of
  digits cannot match where the longest one does not.
\<close>

function re_sub_citations :: "str \<Rightarrow> str" where
  "re_sub_citations [] = []"
| "re_sub_citations (c # cs) =
     (if c = 91 \<and> takeWhile is_digit cs \<noteq> [] \<and> dropWhile is_digit cs \<noteq> []
         \<and> hd (dropWhile is_digit cs) = 93
      then lit ''[x]'' @ re_sub_citations (tl (dropWhile is_digit cs))
      else c # re_sub_citations cs)"
  by pat_completeness auto
termination
proof (relation "measure length")
  show "wf (measure length)" by simp
next
  fix c :: nat and cs :: str
  have "length (tl (dropWhile is_digit cs)) \<le> length cs"
    using length_dropWhile_le [of is_digit cs] by simp
  then show "(tl (dropWhile is_digit cs), c # cs) \<in> measure length" by simp
next
  fix c :: nat and cs :: str
  show "(cs, c # cs) \<in> measure length" by simp
qed

text \<open>
  \<open>xs[:stop:-1]\<close>: the slice with step \<open>-1\<close> and no start. Python starts at the last index
  and goes down to, but not including, the adjusted stop: a negative stop has the length
  added and is then clamped to \<open>-1\<close>; a stop beyond the end is clamped to the last index.
\<close>

definition py_slice_back :: "'a list \<Rightarrow> int \<Rightarrow> 'a list" where
  "py_slice_back xs stop =
     (let n = int (length xs);
          stop' = (if stop < 0 then max (stop + n) (- 1) else min stop (n - 1))
      in map (\<lambda>j. xs ! (length xs - 1 - j)) [0 ..< nat (n - 1 - stop')])"

section \<open>Prompt construction\<close>

record block =
  title :: str
  authors :: "str list"
  date :: str
  url :: str
  btext :: str

record message =
  role :: str
  content :: str

definition SOURCE_PROMPT :: str where
  "SOURCE_PROMPT = lit (''You are a helpful assistant knowledgeable about AI Alignment and Safety. '' @
     ''Please give a clear and coherent answer to the user's questions.(written after \"Q:\") '' @
     ''using the following sources. Each source is labeled with a letter. Feel free to '' @
     ''use the sources in any order, and try to use multiple sources in your answers.\<newline>\<newline>'')"

definition HISTORY_NOTE :: str where
  "HISTORY_NOTE = lit (''\<newline>\<newline>'' @
     ''Before the question (\"Q: \"), there will be a history of previous questions and answers. '' @
     ''These sources only apply to the last question. Any sources used in previous answers '' @
     ''are invalid.'')"

definition QUESTION_PROMPT :: str where
  "QUESTION_PROMPT = lit (''In your answer, please cite any claims you make back to each source '' @
     ''using the format: [a], [b], etc. If you use multiple sources to make a claim '' @
     ''cite all of them. For example: \"AGI is concerning [c, d, e].\"\<newline>\<newline>'')"

definition CONCISE_PROMPT :: str where
  "CONCISE_PROMPT = lit (''Answer very concisely, getting to the crux of the matter in as '' @
     ''few words as possible. Limit your answer to 1-2 sentences.\<newline>\<newline>'')"

definition ROOKIE_PROMPT :: str where
  "ROOKIE_PROMPT = lit (''This user is new to the field of AI Alignment and Safety - don't '' @
     ''assume they know any technical terms or jargon. Still give a complete answer '' @
     ''without patronizing the user, but take any extra time needed to '' @
     ''explain new concepts or to illustrate your answer with examples. '' @
     ''Put extra effort into explaining the intuition behind concepts '' @
     ''rather than just giving a formal definition.\<newline>\<newline>'')"

text \<open>
  The f-string of the context loop:
  \<open>[{chr(ord('a') + i)}] {title} - {','.join(authors)} - {date}\n{text}\n\n\<close>.
\<close>

definition block_str :: "nat \<Rightarrow> block \<Rightarrow> error + str" where
  "block_str i b =
     (case py_chr (97 + i) of
        Inl e \<Rightarrow> Inl e
      | Inr letter \<Rightarrow>
          Inr (lit ''['' @ letter @ lit ''] '' @ title b @ lit '' - '' @ join (lit '','') (authors b)
               @ lit '' - '' @ date b @ lit ''\<newline>'' @ btext b @ lit ''\<newline>\<newline>''))"

text \<open>
  The loop over \<open>enumerate(context)\<close>, from index \<open>i\<close> on, with the running token count
  and the system text built so far. \<open>break\<close> is the branch that does not recurse.
\<close>

fun context_loop :: "tokenizer \<Rightarrow> nat \<Rightarrow> int \<Rightarrow> str \<Rightarrow> block list \<Rightarrow> error + str" where
  "context_loop tk i token_count source_prompt [] = Inr source_prompt"
| "context_loop tk i token_count source_prompt (b # bs) =
     (case block_str i b of
        Inl e \<Rightarrow> Inl e
      | Inr bstr \<Rightarrow>
          let block_tc = int (length (encode tk bstr)) in
          if token_count + block_tc > context_limit
          then Inr (source_prompt @ cap tk bstr (context_limit - token_count))
          else context_loop tk (i + 1) (token_count + block_tc) (source_prompt @ bstr) bs)"

text \<open>
  One iteration of the history loop: the entry appended to \<open>history_trnc\<close> and the new
  token count.
\<close>

definition history_step :: "tokenizer \<Rightarrow> int \<Rightarrow> message \<Rightarrow> message \<times> int" where
  "history_step tk token_count m =
     (if role m = lit ''user''
      then (\<lparr>role = lit ''user'', content = lit ''Q: '' @ content m\<rparr>,
            token_count + int (length (encode tk (lit ''Q: '' @ content m))))
      else
        let c = re_sub_citations (cap tk (content m) (history_limit - token_count)) in
        (\<lparr>role = lit ''assistant'', content = c\<rparr>, token_count + int (length (encode tk c))))"

fun history_loop :: "tokenizer \<Rightarrow> int \<Rightarrow> message list \<Rightarrow> message list \<Rightarrow> message list" where
  "history_loop tk token_count history_trnc [] = history_trnc"
| "history_loop tk token_count history_trnc (m # ms) =
     (let (entry, token_count') = history_step tk token_count m in
      if token_count' > history_limit then history_trnc @ [entry]
      else history_loop tk token_count' (history_trnc @ [entry]) ms)"

definition construct_prompt ::
  "tokenizer \<Rightarrow> str \<Rightarrow> str \<Rightarrow> message list \<Rightarrow> block list \<Rightarrow> error + message list" where
  "construct_prompt tk query mode history context =
     (case context_loop tk 0 (int (length (encode tk SOURCE_PROMPT))) SOURCE_PROMPT context of
        Inl e \<Rightarrow> Inl e
      | Inr sp \<Rightarrow>
          let source_prompt = strip sp;
              source_prompt = (if length history > 0 then source_prompt @ HISTORY_NOTE
                               else source_prompt);
              prompt = [\<lparr>role = lit ''system'', content = strip source_prompt\<rparr>];
              history_trnc = history_loop tk 0 [] (py_slice_back history (- 10));
              prompt = prompt @ rev history_trnc;
              final = (\<lambda>question_prompt.
                 Inr (prompt @ [\<lparr>role = lit ''user'',
                                 content = question_prompt @ lit ''Q: '' @ query\<rparr>]))
          in if mode = lit ''concise'' then final (QUESTION_PROMPT @ CONCISE_PROMPT)
             else if mode = lit ''rookie'' then final (QUESTION_PROMPT @ ROOKIE_PROMPT)
             else if mode \<noteq> lit ''default'' then Inl (ValueError (lit ''Invalid mode: '' @ mode))
             else final QUESTION_PROMPT)"


section \<open>The collaborators of one invocation\<close>

text \<open>
  \<open>talk_to_robot_internal\<close> calls four remote collaborators (retrieval, moderation,
  completion, followups) and the session ledger \<open>budget_manager\<close>. None of them is code of
  \<open>chat.py\<close>; what they answer during one invocation is the record \<open>world\<close>. A call that
  raises answers \<open>Inl\<close> with \<open>str(e)\<close> of the exception.
  \<^item> \<open>get_top_k_blocks\<close>: the blocks for a query and \<open>k\<close> (the index is part of the world).
  \<^item> \<open>Moderation_create\<close>: the \<open>flagged\<close> fields of \<open>mod_res["results"]\<close> for the inputs.
  \<^item> \<open>get_current_cost\<close>, \<open>get_total_budget\<close>: the ledger's figures for the session.
  \<^item> \<open>completion\<close>: the stream for the messages and \<open>max_tokens\<close>: the \<open>content\<close> of each
    chunk's delta (\<open>None\<close> when the delta is \<open>None\<close> or has no content), and the message of
    the exception that ends the stream, if one does.
  \<^item> \<open>update_cost\<close>: \<open>None\<close> when the ledger accepts the update for the response so far,
    else the message of the exception it raises.
  \<^item> \<open>multisearch_authored\<close>: the followups for \<open>[query, response]\<close>.
\<close>

datatype followup = Followup str

record world =
  get_top_k_blocks :: "str \<Rightarrow> nat \<Rightarrow> str + block list"
  Moderation_create :: "str list \<Rightarrow> str + bool list"
  get_current_cost :: rat
  get_total_budget :: rat
  completion :: "message list \<Rightarrow> int \<Rightarrow> str option list \<times> str option"
  update_cost :: "str \<Rightarrow> str option"
  multisearch_authored :: "str list \<Rightarrow> str + followup list"

text \<open>The remote calls an invocation makes, in order, with their arguments.\<close>

datatype call =
    CallRetrieval str nat
  | CallModeration "str list"
  | CallCompletion "message list" int
  | CallFollowup "str list"

section \<open>Events\<close>

datatype phase = Semantic | Prompt | Llm

datatype citation = Citation (c_title: str) (c_author: "str list") (c_date: str) (c_url: str)

text \<open>
  The dictionaries the generator yields: \<open>state\<close> is the constructor, \<open>Loading\<close> carries
  the phase and, when the key is present, the citations.
\<close>

datatype event =
    Loading phase "citation list option"
  | Streaming str
  | Done "followup list"
  | Error str

definition citation_of :: "block \<Rightarrow> citation" where
  "citation_of b = Citation (title b) (authors b) (date b) (url b)"


fun is_streaming :: "event \<Rightarrow> bool" where
  "is_streaming (Streaming _) = True"
| "is_streaming _ = False"

text \<open>The terminal events are \<open>done\<close> and \<open>error\<close>.\<close>

fun is_terminal :: "event \<Rightarrow> bool" where
  "is_terminal (Done _) = True"
| "is_terminal (Error _) = True"
| "is_terminal _ = False"

section \<open>\<open>talk_to_robot_internal\<close>\<close>

text \<open>
  The loop over the chunks of the completion stream, with the response accumulated so
  far: the streaming events yielded, the final response, and the message of the exception
  that \<open>update_cost\<close> raised, if it did.
\<close>

fun stream_loop :: "world \<Rightarrow> str \<Rightarrow> str option list \<Rightarrow> event list \<times> str \<times> str option" where
  "stream_loop w response [] = ([], response, None)"
| "stream_loop w response (res # chunks) =
     (case update_cost w response of
        Some e \<Rightarrow> ([], response, Some e)
      | None \<Rightarrow>
          (case res of
             None \<Rightarrow> stream_loop w response chunks
           | Some c \<Rightarrow>
               let (evs, response', err) = stream_loop w (response @ c) chunks
               in (Streaming c # evs, response', err)))"

text \<open>
  Step 4: \<open>NUM_TOKENS - sum([len(encode(content) + encode(role)) ...]) - 50\<close>.
\<close>

definition max_tokens_completion :: "tokenizer \<Rightarrow> message list \<Rightarrow> int" where
  "max_tokens_completion tk prompt =
     NUM_TOKENS
     - (\<Sum>m \<leftarrow> prompt. int (length (encode tk (content m) @ encode tk (role m))))
     - 50"

text \<open>
  The condition under the comment \<open># check if budget exceeded for session\<close>, as the
  source writes it; when it holds the source raises.
\<close>

definition budget_exceeded :: "world \<Rightarrow> bool" where
  "budget_exceeded w \<longleftrightarrow> get_current_cost w \<le> get_total_budget w"

text \<open>
  The generator, run to its end: the events it yields and the remote calls it makes. Every
  exception inside the \<open>try\<close> ends the run with one \<open>Error\<close> event carrying \<open>str(e)\<close>.
  Logging and printing are left out.
\<close>

definition talk_to_robot_internal ::
  "world \<Rightarrow> tokenizer \<Rightarrow> str \<Rightarrow> str \<Rightarrow> message list \<Rightarrow> nat \<Rightarrow> event list \<times> call list" where
  "talk_to_robot_internal w tk query mode history k =
     (let ev1 = [Loading Semantic None];
          calls1 = [CallRetrieval query k]
      in case get_top_k_blocks w query k of
        Inl e \<Rightarrow> (ev1 @ [Error e], calls1)
      | Inr top_k_blocks \<Rightarrow>
          let ev2 = ev1 @ [Loading Semantic (Some (map citation_of top_k_blocks)),
                           Loading Prompt None]
          in case construct_prompt tk query mode history top_k_blocks of
            Inl e \<Rightarrow> (ev2 @ [Error (error_str e)], calls1)
          | Inr prompt \<Rightarrow>
              let prompt_string = join (lit ''\<newline>\<newline>'') (map content prompt);
                  calls2 = calls1 @ [CallModeration [query, prompt_string]]
              in case Moderation_create w [query, prompt_string] of
                Inl e \<Rightarrow> (ev2 @ [Error e], calls2)
              | Inr results \<Rightarrow>
                  if list_ex (\<lambda>flagged. flagged) results
                  then (ev2 @ [Error (lit (''This conversation was rejected by OpenAI's '' @
                                           ''moderation filter. Sorry.''))], calls2)
                  else
                    let max_tokens = max_tokens_completion tk prompt;
                        ev3 = ev2 @ [Loading Llm None]
                    in if budget_exceeded w
                       then (ev3 @ [Error (lit ''Exceeded the maximum budget for this session'')],
                             calls2)
                       else
                         let calls3 = calls2 @ [CallCompletion prompt max_tokens];
                             (chunks, failure) = completion w prompt max_tokens;
                             (streamed, response, err) = stream_loop w [] chunks;
                             ev4 = ev3 @ streamed
                         in case err of
                           Some e \<Rightarrow> (ev4 @ [Error e], calls3)
                         | None \<Rightarrow>
                             (case failure of
                                Some e \<Rightarrow> (ev4 @ [Error e], calls3)
                              | None \<Rightarrow>
                                  let calls4 = calls3 @ [CallFollowup [query, response]]
                                  in case multisearch_authored w [query, response] of
                                    Inl e \<Rightarrow> (ev4 @ [Error e], calls4)
                                  | Inr followups \<Rightarrow> (ev4 @ [Done followups], calls4)))"

section \<open>\<open>talk_to_robot_simple\<close>\<close>

text \<open>
  \<open>budget_manager.create_budget(total_budget=10, user=session_id)\<close> for the fresh session
  of an adapter: the ledger's budget for the session is the one given.
\<close>

definition create_budget :: "rat \<Rightarrow> world \<Rightarrow> world" where
  "create_budget total_budget w = w\<lparr>get_total_budget := total_budget\<rparr>"

record res =
  response :: str
  citations :: "(str \<times> citation) list option"

text \<open>
  \<open>citations[chr(ord('a') + i)] = c\<close> over \<open>enumerate(block['citations'])\<close>: the dictionary
  as the list of its items, in insertion order. \<open>chr\<close> can raise, and nothing in
  \<open>talk_to_robot_simple\<close> catches it.
\<close>

fun letter_citations :: "nat \<Rightarrow> citation list \<Rightarrow> error + (str \<times> citation) list" where
  "letter_citations i [] = Inr []"
| "letter_citations i (c # cs) =
     (case py_chr (97 + i) of
        Inl e \<Rightarrow> Inl e
      | Inr letter \<Rightarrow>
          (case letter_citations (i + 1) cs of
             Inl e \<Rightarrow> Inl e
           | Inr d \<Rightarrow> Inr ((letter, c) # d)))"

text \<open>The loop over the events, with the result built so far.\<close>

fun simple_loop :: "res \<Rightarrow> event list \<Rightarrow> error + res" where
  "simple_loop r [] = Inr r"
| "simple_loop r (Loading Semantic (Some cs) # evs) =
     (case letter_citations 0 cs of
        Inl e \<Rightarrow> Inl e
      | Inr d \<Rightarrow> simple_loop (r\<lparr>citations := Some d\<rparr>) evs)"
| "simple_loop r (Streaming c # evs) = simple_loop (r\<lparr>response := response r @ c\<rparr>) evs"
| "simple_loop r (Error e # evs) = simple_loop (r\<lparr>response := e\<rparr>) evs"
| "simple_loop r (_ # evs) = simple_loop r evs"

text \<open>
  The object that \<open>talk_to_robot_simple\<close> serialises and returns, for the default mode,
  an empty history and \<open>k = STANDARD_K\<close>.
\<close>

definition talk_to_robot_simple :: "world \<Rightarrow> tokenizer \<Rightarrow> str \<Rightarrow> error + res" where
  "talk_to_robot_simple w tk query =
     simple_loop \<lparr>response = [], citations = None\<rparr>
       (fst (talk_to_robot_internal (create_budget 10 w) tk query (lit ''default'') [] STANDARD_K))"

section \<open>Measuring an assembled prompt\<close>

text \<open>
  The history messages of an assembled prompt are those between the system message and
  the final user message. The measured cost of messages is what the history loop adds to
  its \<open>token_count\<close>: the number of tokens of each content.
\<close>

definition history_messages :: "message list \<Rightarrow> message list" where
  "history_messages prompt = butlast (tl prompt)"

definition measured_cost :: "tokenizer \<Rightarrow> message list \<Rightarrow> int" where
  "measured_cost tk ms = (\<Sum>m \<leftarrow> ms. int (length (encode tk (content m))))"

section \<open>The context loop as the specification describes it\<close>

text \<open>
  For comparison with \<open>context_loop\<close>, the text appended to the system message in the
  specification's words. \<open>rendered\<close> is the list of the blocks' rendered forms, numbered
  from \<open>i\<close> in input order. \<open>running_count\<close> is the token count before block \<open>j\<close>: the
  count so far plus the cost of the blocks before it. Block \<open>j\<close> \<open>crosses\<close> when adding its
  whole rendered form would push the running count past \<open>NUM_TOKENS * CONTEXT_FRACTION\<close>.
  The blocks before the first crossing are appended whole and in order; the first
  crossing block is capped to the remaining budget; nothing follows it.
\<close>

definition rendered :: "nat \<Rightarrow> block list \<Rightarrow> str list" where
  "rendered i bs =
     map (\<lambda>(j, b). case block_str j b of Inl _ \<Rightarrow> [] | Inr s \<Rightarrow> s) (enumerate i bs)"

definition running_count :: "tokenizer \<Rightarrow> int \<Rightarrow> str list \<Rightarrow> nat \<Rightarrow> int" where
  "running_count tk tc0 strs j = tc0 + (\<Sum>s \<leftarrow> take j strs. int (length (encode tk s)))"

definition crosses :: "tokenizer \<Rightarrow> int \<Rightarrow> str list \<Rightarrow> nat \<Rightarrow> bool" where
  "crosses tk tc0 strs j \<longleftrightarrow>
     of_int NUM_TOKENS * CONTEXT_FRACTION
       < (of_int (running_count tk tc0 strs j + int (length (encode tk (strs ! j)))) :: rat)"

definition first_crossing :: "tokenizer \<Rightarrow> int \<Rightarrow> str list \<Rightarrow> nat" where
  "first_crossing tk tc0 strs =
     length (takeWhile (\<lambda>j. \<not> crosses tk tc0 strs j) [0 ..< length strs])"

definition blocks_appended_spec :: "tokenizer \<Rightarrow> nat \<Rightarrow> int \<Rightarrow> block list \<Rightarrow> str" where
  "blocks_appended_spec tk i tc0 bs =
     (let strs = rendered i bs;
          j = first_crossing tk tc0 strs
      in concat (take j strs)
         @ (if j < length strs
            then cap tk (strs ! j) (context_limit - running_count tk tc0 strs j)
            else []))"

section \<open>Shorthands for the runs of the generator\<close>

text \<open>
  The loading events before the prompt is built and before generation starts, and
  \<open>prompt_string\<close> of step 3.
\<close>

abbreviation loading2 :: "block list \<Rightarrow> event list" where
  "loading2 bs \<equiv> [Loading Semantic None, Loading Semantic (Some (map citation_of bs)),
                  Loading Prompt None]"

abbreviation loading3 :: "block list \<Rightarrow> event list" where
  "loading3 bs \<equiv> [Loading Semantic None, Loading Semantic (Some (map citation_of bs)),
                  Loading Prompt None, Loading Llm None]"

abbreviation prompt_string :: "message list \<Rightarrow> str" where
  "prompt_string prompt \<equiv> join (lit ''\<newline>\<newline>'') (map content prompt)"

section \<open>Sample inputs\<close>

text \<open>
  A world in which every collaborator answers: no blocks retrieved, nothing flagged, a
  session whose cost (11) is above its budget (10), a stream of one chunk, no followups.
\<close>

definition sample_world :: world where
  "sample_world =
     \<lparr>get_top_k_blocks = (\<lambda>query k. Inr []),
      Moderation_create = (\<lambda>inputs. Inr [False, False]),
      get_current_cost = 11,
      get_total_budget = 10,
      completion = (\<lambda>messages max_tokens. ([Some (lit ''Hi'')], None)),
      update_cost = (\<lambda>response. None),
      multisearch_authored = (\<lambda>inputs. Inr [])\<rparr>"


definition fresh_session_world :: world where
  "fresh_session_world = sample_world\<lparr>get_current_cost := 0\<rparr>"

definition midstream_failure_world :: world where
  "midstream_failure_world =
     sample_world\<lparr>completion :=
       (\<lambda>messages max_tokens. ([Some (lit ''Hi'')], Some (lit ''connection reset'')))\<rparr>"

definition followup_failure_world :: world where
  "followup_failure_world =
     sample_world\<lparr>multisearch_authored := (\<lambda>inputs. Inl (lit ''followups unavailable''))\<rparr>"

text \<open>The prompt for a query in the default mode with no history and no blocks.\<close>

definition plain_prompt :: "str \<Rightarrow> message list" where
  "plain_prompt query =
     [\<lparr>role = lit ''system'', content = strip (strip SOURCE_PROMPT)\<rparr>,
      \<lparr>role = lit ''user'', content = QUESTION_PROMPT @ lit ''Q: '' @ query\<rparr>]"

text \<open>
  A history of three turns whose oldest turn is a user message of 1100 characters, and the
  prompt assembled from it in the default mode with no blocks.
\<close>

definition long_history :: "message list" where
  "long_history =
     [\<lparr>role = lit ''user'', content = replicate 1100 97\<rparr>,
      \<lparr>role = lit ''assistant'', content = lit ''see [12]''\<rparr>,
      \<lparr>role = lit ''user'', content = lit ''hi''\<rparr>]"

definition long_history_prompt :: "message list" where
  "long_history_prompt =
     [\<lparr>role = lit ''system'', content = strip (strip SOURCE_PROMPT @ HISTORY_NOTE)\<rparr>,
      \<lparr>role = lit ''user'', content = lit ''Q: '' @ replicate 1100 97\<rparr>,
      \<lparr>role = lit ''assistant'', content = lit ''see [x]''\<rparr>,
      \<lparr>role = lit ''user'', content = lit ''Q: hi''\<rparr>,
      \<lparr>role = lit ''user'', content = QUESTION_PROMPT @ lit ''Q: '' @ lit ''q''\<rparr>]"

text \<open>
  Three blocks: the first is short, the text of the second has 2100 characters, the third
  is short again.
\<close>

definition short_block :: block where
  "short_block =
     \<lparr>title = lit ''T'', authors = [lit ''A'', lit ''B''], date = lit ''2020'',
      url = lit ''u'', btext = lit ''text''\<rparr>"

definition long_block :: block where
  "long_block = short_block\<lparr>btext := replicate 2100 120\<rparr>"

definition sample_context :: "block list" where
  "sample_context = [short_block, long_block, short_block]"

section \<open>Properties of the helpers\<close>

lemma context_limit_eq: "context_limit = 2047"
  by (simp add: context_limit_def py_int_def NUM_TOKENS_def CONTEXT_FRACTION_def floor_eq_iff)

lemma history_limit_eq: "history_limit = 1023"
  by (simp add: history_limit_def py_int_def NUM_TOKENS_def HISTORY_FRACTION_def floor_eq_iff)

lemma mode_literals_distinct:
  "lit ''default'' \<noteq> lit ''concise''" "lit ''default'' \<noteq> lit ''rookie''"
  "lit ''concise'' \<noteq> lit ''rookie''"
  by (simp_all add: lit_def)

lemma block_str_in_range:
  "i < 1114015 \<Longrightarrow> \<exists>s. block_str i b = Inr s"
  by (simp add: block_str_def py_chr_def)

lemma context_loop_in_range:
  "i + length bs \<le> 1114015 \<Longrightarrow> \<exists>sp'. context_loop tk i tc sp bs = Inr sp'"
proof (induction bs arbitrary: i tc sp)
  case Nil
  then show ?case by simp
next
  case (Cons b bs)
  then have "i < 1114015" by simp
  then obtain s where s: "block_str i b = Inr s"
    using block_str_in_range by blast
  from Cons.prems have "(i + 1) + length bs \<le> 1114015" by simp
  from Cons.IH [OF this] show ?case
    by (simp add: s Let_def)
qed

lemma py_slice_back_last_nine: "py_slice_back xs (- 10) = take 9 (rev xs)"
proof (rule nth_equalityI)
  show len: "length (py_slice_back xs (- 10)) = length (take 9 (rev xs))"
    by (auto simp: py_slice_back_def Let_def)
  fix i assume "i < length (py_slice_back xs (- 10))"
  with len have i: "i < 9" "i < length xs" by simp_all
  then have "i < nat (int (length xs) - 1 - max (- 10 + int (length xs)) (- 1))"
    by auto
  then show "py_slice_back xs (- 10) ! i = take 9 (rev xs) ! i"
    using i by (simp add: py_slice_back_def Let_def rev_nth)
qed

lemma construct_prompt_shape:
  assumes "construct_prompt tk query mode history context = Inr p"
  shows "\<exists>s q. p = \<lparr>role = lit ''system'', content = s\<rparr>
                  # rev (history_loop tk 0 [] (take 9 (rev history)))
                  @ [\<lparr>role = lit ''user'', content = q @ lit ''Q: '' @ query\<rparr>]"
  using assms
  by (auto simp: construct_prompt_def Let_def py_slice_back_last_nine
           split: sum.splits if_splits)


lemma construct_prompt_valid_mode:
  assumes "mode = lit ''default'' \<or> mode = lit ''concise'' \<or> mode = lit ''rookie''"
    and "length context \<le> 1114015"
  shows "\<exists>p. construct_prompt tk query mode history context = Inr p"
proof -
  obtain sp where "context_loop tk 0 (int (length (encode tk SOURCE_PROMPT))) SOURCE_PROMPT context = Inr sp"
    using context_loop_in_range [of 0 "context" tk] assms(2) by fastforce
  then show ?thesis
    using assms(1) by (auto simp: construct_prompt_def Let_def)
qed

lemma construct_prompt_plain:
  "construct_prompt tk query (lit ''default'') [] [] = Inr (plain_prompt query)"
  by (simp add: construct_prompt_def plain_prompt_def py_slice_back_def mode_literals_distinct)

section \<open>The runs of \<open>talk_to_robot_internal\<close>\<close>

lemma stream_loop_streaming:
  "stream_loop w r cs = (evs, r', err) \<Longrightarrow> list_all is_streaming evs"
proof (induction cs arbitrary: r evs r' err)
  case Nil
  then show ?case by simp
next
  case (Cons c cs)
  show ?case
  proof (cases "update_cost w r")
    case (Some e)
    with Cons.prems show ?thesis by simp
  next
    case None
    show ?thesis
    proof (cases c)
      case None': None
      with None Cons.prems have "stream_loop w r cs = (evs, r', err)" by simp
      then show ?thesis by (rule Cons.IH)
    next
      case (Some s)
      obtain evs0 r0 err0 where rest: "stream_loop w (r @ s) cs = (evs0, r0, err0)"
        by (cases "stream_loop w (r @ s) cs") auto
      with None Some Cons.prems have "evs = Streaming s # evs0" by simp
      moreover from rest have "list_all is_streaming evs0" by (rule Cons.IH)
      ultimately show ?thesis by simp
    qed
  qed
qed

text \<open>
  The runs of the generator, stage by stage: each lemma gives the events and the calls of
  the runs that end at one stage.
\<close>

lemma run_retrieval_fails:
  assumes "get_top_k_blocks w query k = Inl e"
  shows "talk_to_robot_internal w tk query mode history k
         = ([Loading Semantic None, Error e], [CallRetrieval query k])"
  using assms by (simp add: talk_to_robot_internal_def)

lemma run_prompt_fails:
  assumes "get_top_k_blocks w query k = Inr bs"
    and "construct_prompt tk query mode history bs = Inl e"
  shows "talk_to_robot_internal w tk query mode history k
         = (loading2 bs @ [Error (error_str e)], [CallRetrieval query k])"
  using assms by (simp add: talk_to_robot_internal_def)

lemma run_moderation_fails:
  assumes "get_top_k_blocks w query k = Inr bs"
    and "construct_prompt tk query mode history bs = Inr prompt"
    and "Moderation_create w [query, prompt_string prompt] = Inl e"
  shows "talk_to_robot_internal w tk query mode history k
         = (loading2 bs @ [Error e],
            [CallRetrieval query k, CallModeration [query, prompt_string prompt]])"
  using assms by (simp add: talk_to_robot_internal_def)

lemma run_moderation_flags:
  assumes "get_top_k_blocks w query k = Inr bs"
    and "construct_prompt tk query mode history bs = Inr prompt"
    and "Moderation_create w [query, prompt_string prompt] = Inr results"
    and "list_ex (\<lambda>flagged. flagged) results"
  shows "talk_to_robot_internal w tk query mode history k
         = (loading2 bs @ [Error (lit (''This conversation was rejected by OpenAI's '' @
                                       ''moderation filter. Sorry.''))],
            [CallRetrieval query k, CallModeration [query, prompt_string prompt]])"
  using assms by (simp add: talk_to_robot_internal_def)

lemma run_budget_check_raises:
  assumes "get_top_k_blocks w query k = Inr bs"
    and "construct_prompt tk query mode history bs = Inr prompt"
    and "Moderation_create w [query, prompt_string prompt] = Inr results"
    and "\<not> list_ex (\<lambda>flagged. flagged) results"
    and "budget_exceeded w"
  shows "talk_to_robot_internal w tk query mode history k
         = (loading3 bs @ [Error (lit ''Exceeded the maximum budget for this session'')],
            [CallRetrieval query k, CallModeration [query, prompt_string prompt]])"
  using assms by (simp add: talk_to_robot_internal_def)

lemma run_generation:
  assumes "get_top_k_blocks w query k = Inr bs"
    and "construct_prompt tk query mode history bs = Inr prompt"
    and "Moderation_create w [query, prompt_string prompt] = Inr results"
    and "\<not> list_ex (\<lambda>flagged. flagged) results"
    and "\<not> budget_exceeded w"
    and "completion w prompt (max_tokens_completion tk prompt) = (chunks, failure)"
    and "stream_loop w [] chunks = (streamed, resp, err)"
  shows "talk_to_robot_internal w tk query mode history k
         = (case err of
              Some e \<Rightarrow>
                (loading3 bs @ streamed @ [Error e],
                 [CallRetrieval query k, CallModeration [query, prompt_string prompt],
                  CallCompletion prompt (max_tokens_completion tk prompt)])
            | None \<Rightarrow>
                (case failure of
                   Some e \<Rightarrow>
                     (loading3 bs @ streamed @ [Error e],
                      [CallRetrieval query k, CallModeration [query, prompt_string prompt],
                       CallCompletion prompt (max_tokens_completion tk prompt)])
                 | None \<Rightarrow>
                     (loading3 bs @ streamed
                        @ [case multisearch_authored w [query, resp] of
                             Inl e \<Rightarrow> Error e | Inr followups \<Rightarrow> Done followups],
                      [CallRetrieval query k, CallModeration [query, prompt_string prompt],
                       CallCompletion prompt (max_tokens_completion tk prompt),
                       CallFollowup [query, resp]])))"
  using assms by (simp add: talk_to_robot_internal_def split: option.split sum.split)

lemma shapeI:
  assumes "evs = ls @ ss @ [t]" and "Q ls" and "list_all is_streaming ss" and "is_terminal t"
  shows "\<exists>ls ss t. evs = ls @ ss @ [t] \<and> Q ls \<and> list_all is_streaming ss \<and> is_terminal t"
  using assms by blast

lemma run_events:
  "\<exists>ls ss t. fst (talk_to_robot_internal w tk query mode history k) = ls @ ss @ [t]
     \<and> (ls = [Loading Semantic None]
        \<or> (\<exists>bs. get_top_k_blocks w query k = Inr bs \<and> (ls = loading2 bs \<or> ls = loading3 bs)))
     \<and> list_all is_streaming ss \<and> is_terminal t"
proof (cases "get_top_k_blocks w query k")
  case (Inl e)
  then show ?thesis
    by (intro shapeI [where ls = "[Loading Semantic None]" and ss = "[]" and t = "Error e"])
       (simp_all add: run_retrieval_fails)
next
  case bs: (Inr bs)
  show ?thesis
  proof (cases "construct_prompt tk query mode history bs")
    case (Inl e)
    with bs show ?thesis
      by (intro shapeI [where ls = "loading2 bs" and ss = "[]" and t = "Error (error_str e)"])
         (simp_all add: run_prompt_fails)
  next
    case prompt: (Inr prompt)
    show ?thesis
    proof (cases "Moderation_create w [query, prompt_string prompt]")
      case (Inl e)
      with bs prompt show ?thesis
        by (intro shapeI [where ls = "loading2 bs" and ss = "[]" and t = "Error e"])
           (simp_all add: run_moderation_fails)
    next
      case results: (Inr results)
      show ?thesis
      proof (cases "list_ex (\<lambda>flagged. flagged) results")
        case True
        with bs prompt results show ?thesis
          by (intro shapeI [where ls = "loading2 bs" and ss = "[]"
                and t = "Error (lit (''This conversation was rejected by OpenAI's '' @
                                       ''moderation filter. Sorry.''))"])
             (simp_all add: run_moderation_flags)
      next
        case unflagged: False
        show ?thesis
        proof (cases "budget_exceeded w")
          case True
          with bs prompt results unflagged show ?thesis
            by (intro shapeI [where ls = "loading3 bs" and ss = "[]"
                  and t = "Error (lit ''Exceeded the maximum budget for this session'')"])
               (simp_all add: run_budget_check_raises)
        next
          case proceeds: False
          obtain chunks failure
            where stream: "completion w prompt (max_tokens_completion tk prompt) = (chunks, failure)"
            by (cases "completion w prompt (max_tokens_completion tk prompt)") auto
          obtain streamed resp err
            where loop: "stream_loop w [] chunks = (streamed, resp, err)"
            by (cases "stream_loop w [] chunks") auto
          have ss: "list_all is_streaming streamed"
            using loop by (rule stream_loop_streaming)
          have "\<exists>t. is_terminal t \<and> fst (talk_to_robot_internal w tk query mode history k)
                      = loading3 bs @ streamed @ [t]"
            by (cases err; cases failure; cases "multisearch_authored w [query, resp]";
                simp add: run_generation [OF bs prompt results unflagged proceeds stream loop])
          then obtain t where t: "is_terminal t"
            and run: "fst (talk_to_robot_internal w tk query mode history k)
                      = loading3 bs @ streamed @ [t]"
            by blast
          show ?thesis
            by (intro shapeI [where ls = "loading3 bs" and ss = streamed and t = t])
               (simp_all add: bs ss t run)
        qed
      qed
    qed
  qed
qed

section \<open>\<open>cap\<close>\<close>

lemma cap_nonpositive: "N \<le> 0 \<Longrightarrow> cap tk T N = lit ''...''"
  by (simp add: cap_def)

lemma cap_fits: "0 < N \<Longrightarrow> int (length (encode tk T)) \<le> N \<Longrightarrow> cap tk T N = T"
  by (simp add: cap_def)

lemma cap_truncates:
  "0 < N \<Longrightarrow> N < int (length (encode tk T)) \<Longrightarrow>
   cap tk T N = decode tk (take (nat N) (encode tk T)) @ lit '' ...''"
  by (simp add: cap_def)

text \<open>
  C8, as amended. For every tokenizer, every text \<open>T\<close> and every ceiling \<open>N > 0\<close>: if \<open>T\<close> has
  at most \<open>N\<close> tokens then \<open>cap\<close> returns \<open>T\<close> unchanged. (For \<open>N = 0\<close> the guard
  \<open>max_tokens <= 0\<close> answers the marker \<open>...\<close> whatever the text is.)
\<close>

theorem cap_unchanged_when_fits:
  assumes "0 < N" and "int (length (encode tk T)) \<le> N"
  shows "cap tk T N = T"
  using assms by (rule cap_fits)

theorem cap_unchanged_when_fits_witness:
  "(0::int) < 3 \<and> int (length (encode codepoint_tokenizer (lit ''abc''))) \<le> 3
   \<and> cap codepoint_tokenizer (lit ''abc'') 3 = lit ''abc''"
  using cap_unchanged_when_fits [of 3 codepoint_tokenizer "lit ''abc''"]
  by (simp add: codepoint_tokenizer_def lit_def)

text \<open>
  C8, as stated, fails at \<open>N = 0\<close>: the empty text has no token, yet \<open>cap\<close> does not return
  it.
\<close>

theorem cap_unchanged_counterexample:
  "(0::int) \<le> 0 \<and> int (length (encode codepoint_tokenizer [])) \<le> 0
   \<and> cap codepoint_tokenizer [] 0 = lit ''...'' \<and> cap codepoint_tokenizer [] 0 \<noteq> []"
  by (simp add: cap_def codepoint_tokenizer_def lit_def)

text \<open>
  C3, as amended. For every tokenizer, text \<open>T\<close> and ceiling \<open>N\<close>: for \<open>N \<le> 0\<close> the result of
  \<open>cap\<close> is the literal marker \<open>...\<close>; for \<open>N > 0\<close> and a text of at most \<open>N\<close> tokens the
  result is the text itself, which re-tokenized has at most \<open>N\<close> tokens; for \<open>N > 0\<close> and a
  longer text the result is the decoding of the first \<open>N\<close> tokens followed by the marker
  \<open> ...\<close>, whose tokens come on top of the ceiling.
\<close>

theorem cap_result:
  "(N \<le> 0 \<longrightarrow> cap tk T N = lit ''...'')
   \<and> (0 < N \<and> int (length (encode tk T)) \<le> N \<longrightarrow>
        cap tk T N = T \<and> int (length (encode tk (cap tk T N))) \<le> N)
   \<and> (0 < N \<and> N < int (length (encode tk T)) \<longrightarrow>
        cap tk T N = decode tk (take (nat N) (encode tk T)) @ lit '' ...'')"
  by (simp add: cap_nonpositive cap_fits cap_truncates)

theorem cap_result_witness:
  "cap codepoint_tokenizer (lit ''abcdef'') (- 1) = lit ''...''
   \<and> cap codepoint_tokenizer (lit ''abc'') 3 = lit ''abc''
   \<and> int (length (encode codepoint_tokenizer (cap codepoint_tokenizer (lit ''abc'') 3))) \<le> 3
   \<and> cap codepoint_tokenizer (lit ''abcdef'') 3 = lit ''abc ...''"
  using cap_result [of "- 1" codepoint_tokenizer "lit ''abcdef''"]
        cap_result [of 3 codepoint_tokenizer "lit ''abc''"]
        cap_result [of 3 codepoint_tokenizer "lit ''abcdef''"]
  by (simp add: codepoint_tokenizer_def lit_def)

text \<open>
  C3, as stated, fails: with one token per code point, capping \<open>abcdef\<close> to 3 tokens gives
  \<open>abc ...\<close> of 7 tokens, and capping to 0 tokens gives \<open>...\<close> of 3 tokens.
\<close>

theorem cap_token_bound_counterexample:
  "\<not> int (length (encode codepoint_tokenizer (cap codepoint_tokenizer (lit ''abcdef'') 3))) \<le> 3
   \<and> \<not> int (length (encode codepoint_tokenizer (cap codepoint_tokenizer (lit ''abcdef'') 0))) \<le> 0"
  by (simp add: cap_def codepoint_tokenizer_def lit_def)

section \<open>Event order\<close>



section \<open>Mode validation\<close>




section \<open>The budget check\<close>

lemma sample_world_simps:
  "get_top_k_blocks sample_world query k = Inr []"
  "Moderation_create sample_world inputs = Inr [False, False]"
  "get_current_cost sample_world = 11"
  "get_total_budget sample_world = 10"
  "completion sample_world messages n = ([Some (lit ''Hi'')], None)"
  "update_cost sample_world r = None"
  "multisearch_authored sample_world inputs = Inr []"
  by (simp_all add: sample_world_def)

text \<open>
  C1: the code at the failing inputs. A session whose cost (11) is above its budget (10)
  is let through: the completion is requested, its chunk is streamed and the run ends with
  \<open>done\<close>. A fresh session (cost 0, budget 10) is refused with the budget error before any
  completion is requested.
\<close>

theorem budget_check_inverted:
  "get_total_budget sample_world < get_current_cost sample_world
   \<and> talk_to_robot_internal sample_world codepoint_tokenizer (lit ''q'') (lit ''default'') [] 10
       = ([Loading Semantic None, Loading Semantic (Some []), Loading Prompt None,
           Loading Llm None, Streaming (lit ''Hi''), Done []],
          [CallRetrieval (lit ''q'') 10,
           CallModeration [lit ''q'', prompt_string (plain_prompt (lit ''q''))],
           CallCompletion (plain_prompt (lit ''q''))
             (max_tokens_completion codepoint_tokenizer (plain_prompt (lit ''q''))),
           CallFollowup [lit ''q'', lit ''Hi'']])
   \<and> get_current_cost fresh_session_world < get_total_budget fresh_session_world
   \<and> talk_to_robot_internal fresh_session_world codepoint_tokenizer (lit ''q'') (lit ''default'') [] 10
       = ([Loading Semantic None, Loading Semantic (Some []), Loading Prompt None,
           Loading Llm None, Error (lit ''Exceeded the maximum budget for this session'')],
          [CallRetrieval (lit ''q'') 10,
           CallModeration [lit ''q'', prompt_string (plain_prompt (lit ''q''))]])"
proof -
  have above: "talk_to_robot_internal sample_world codepoint_tokenizer (lit ''q'') (lit ''default'') [] 10
       = ([Loading Semantic None, Loading Semantic (Some []), Loading Prompt None,
           Loading Llm None, Streaming (lit ''Hi''), Done []],
          [CallRetrieval (lit ''q'') 10,
           CallModeration [lit ''q'', prompt_string (plain_prompt (lit ''q''))],
           CallCompletion (plain_prompt (lit ''q''))
             (max_tokens_completion codepoint_tokenizer (plain_prompt (lit ''q''))),
           CallFollowup [lit ''q'', lit ''Hi'']])"
    by (subst run_generation [where bs = "[]" and prompt = "plain_prompt (lit ''q'')"
          and results = "[False, False]" and chunks = "[Some (lit ''Hi'')]" and failure = None
          and streamed = "[Streaming (lit ''Hi'')]" and resp = "lit ''Hi''" and err = None])
       (simp_all add: sample_world_simps construct_prompt_plain budget_exceeded_def)
  have fresh: "talk_to_robot_internal fresh_session_world codepoint_tokenizer (lit ''q'') (lit ''default'') [] 10
       = ([Loading Semantic None, Loading Semantic (Some []), Loading Prompt None,
           Loading Llm None, Error (lit ''Exceeded the maximum budget for this session'')],
          [CallRetrieval (lit ''q'') 10,
           CallModeration [lit ''q'', prompt_string (plain_prompt (lit ''q''))]])"
    by (subst run_budget_check_raises [where bs = "[]" and prompt = "plain_prompt (lit ''q'')"
          and results = "[False, False]"])
       (simp_all add: fresh_session_world_def sample_world_simps construct_prompt_plain
          budget_exceeded_def)
  show ?thesis
    by (simp only: above fresh simp_thms)
       (simp add: fresh_session_world_def sample_world_simps)
qed

section \<open>Failure of the followup lookup\<close>

text \<open>
  C2, as amended. If the followup lookup raises after the completion stream has finished
  without error, the invocation ends with an error event carrying the message of that
  exception, after the loading events and the streaming events already yielded; no
  \<open>done\<close> event is yielded.
\<close>

theorem followup_failure_yields_error:
  assumes "get_top_k_blocks w query k = Inr bs"
    and "construct_prompt tk query mode history bs = Inr prompt"
    and "Moderation_create w [query, prompt_string prompt] = Inr results"
    and "\<not> list_ex (\<lambda>flagged. flagged) results"
    and "\<not> budget_exceeded w"
    and "completion w prompt (max_tokens_completion tk prompt) = (chunks, None)"
    and "stream_loop w [] chunks = (streamed, resp, None)"
    and "multisearch_authored w [query, resp] = Inl e"
  shows "fst (talk_to_robot_internal w tk query mode history k)
         = loading3 bs @ streamed @ [Error e]"
  by (simp add: run_generation [OF assms(1-7)] assms(8))

theorem followup_failure_yields_error_witness:
  "get_top_k_blocks followup_failure_world (lit ''q'') 10 = Inr []
   \<and> construct_prompt codepoint_tokenizer (lit ''q'') (lit ''default'') [] []
       = Inr (plain_prompt (lit ''q''))
   \<and> Moderation_create followup_failure_world [lit ''q'', prompt_string (plain_prompt (lit ''q''))]
       = Inr [False, False]
   \<and> \<not> list_ex (\<lambda>flagged. flagged) [False, False]
   \<and> \<not> budget_exceeded followup_failure_world
   \<and> completion followup_failure_world (plain_prompt (lit ''q''))
         (max_tokens_completion codepoint_tokenizer (plain_prompt (lit ''q'')))
       = ([Some (lit ''Hi'')], None)
   \<and> stream_loop followup_failure_world [] [Some (lit ''Hi'')]
       = ([Streaming (lit ''Hi'')], lit ''Hi'', None)
   \<and> multisearch_authored followup_failure_world [lit ''q'', lit ''Hi'']
       = Inl (lit ''followups unavailable'')
   \<and> fst (talk_to_robot_internal followup_failure_world codepoint_tokenizer
            (lit ''q'') (lit ''default'') [] 10)
       = [Loading Semantic None, Loading Semantic (Some []), Loading Prompt None,
          Loading Llm None, Streaming (lit ''Hi''), Error (lit ''followups unavailable'')]"
  using followup_failure_yields_error
          [of followup_failure_world "lit ''q''" 10 "[]" codepoint_tokenizer "lit ''default''" "[]"
              "plain_prompt (lit ''q'')" "[False, False]" "[Some (lit ''Hi'')]"
              "[Streaming (lit ''Hi'')]" "lit ''Hi''" "lit ''followups unavailable''"]
  by (simp add: followup_failure_world_def sample_world_simps construct_prompt_plain
        budget_exceeded_def)

text \<open>
  C2, as stated, fails: the stream ends without error, the followup lookup raises, and the
  last event is the error event, not a \<open>done\<close> event without followups.
\<close>

theorem followup_failure_counterexample:
  "multisearch_authored followup_failure_world [lit ''q'', lit ''Hi'']
     = Inl (lit ''followups unavailable'')
   \<and> fst (talk_to_robot_internal followup_failure_world codepoint_tokenizer
            (lit ''q'') (lit ''default'') [] 10)
       = [Loading Semantic None, Loading Semantic (Some []), Loading Prompt None,
          Loading Llm None, Streaming (lit ''Hi''), Error (lit ''followups unavailable'')]
   \<and> last (fst (talk_to_robot_internal followup_failure_world codepoint_tokenizer
            (lit ''q'') (lit ''default'') [] 10)) \<noteq> Done []"
proof -
  have "talk_to_robot_internal followup_failure_world codepoint_tokenizer
            (lit ''q'') (lit ''default'') [] 10
       = ([Loading Semantic None, Loading Semantic (Some []), Loading Prompt None,
           Loading Llm None, Streaming (lit ''Hi''), Error (lit ''followups unavailable'')],
          [CallRetrieval (lit ''q'') 10,
           CallModeration [lit ''q'', prompt_string (plain_prompt (lit ''q''))],
           CallCompletion (plain_prompt (lit ''q''))
             (max_tokens_completion codepoint_tokenizer (plain_prompt (lit ''q''))),
           CallFollowup [lit ''q'', lit ''Hi'']])"
    by (subst run_generation [where bs = "[]" and prompt = "plain_prompt (lit ''q'')"
          and results = "[False, False]" and chunks = "[Some (lit ''Hi'')]" and failure = None
          and streamed = "[Streaming (lit ''Hi'')]" and resp = "lit ''Hi''" and err = None])
       (simp_all add: followup_failure_world_def sample_world_simps construct_prompt_plain
          budget_exceeded_def)
  then show ?thesis
    by (simp add: followup_failure_world_def)
qed

section \<open>The single-shot adapter\<close>

lemma letter_citations_in_range:
  "i + length cs \<le> 1114015 \<Longrightarrow> \<exists>d. letter_citations i cs = Inr d"
proof (induction cs arbitrary: i)
  case Nil
  then show ?case by simp
next
  case (Cons c cs)
  then have "(i + 1) + length cs \<le> 1114015" by simp
  from Cons.IH [OF this] obtain d where "letter_citations (i + 1) cs = Inr d" ..
  moreover from Cons.prems have "97 + i < 1114112" by simp
  ultimately show ?case by (simp add: py_chr_def)
qed

lemma simple_loop_error_last:
  "list_all is_streaming ss \<Longrightarrow>
   \<exists>r'. simple_loop r (ss @ [Error e]) = Inr r' \<and> response r' = e"
proof (induction ss arbitrary: r)
  case Nil
  show ?case by simp
next
  case (Cons s ss)
  then obtain c where "s = Streaming c" by (cases s) simp_all
  with Cons show ?case by simp
qed

lemma simple_loop_loading:
  "simple_loop r (Loading Semantic None # evs) = simple_loop r evs"
  "simple_loop r (Loading Prompt None # evs) = simple_loop r evs"
  "simple_loop r (Loading Llm None # evs) = simple_loop r evs"
  by simp_all

text \<open>
  C10. In the single-shot adapter, if the events of the invocation contain an error event
  then the returned object's response is the message of that error, whatever streaming
  fragments were accumulated before it. The adapter returns an object whenever \<open>chr\<close> finds
  a letter for every citation, that is for at most 1114015 retrieved blocks.
\<close>

theorem simple_response_is_error:
  assumes "Error e \<in> set (fst (talk_to_robot_internal (create_budget 10 w) tk query
                                 (lit ''default'') [] STANDARD_K))"
    and "case get_top_k_blocks w query STANDARD_K of
           Inl _ \<Rightarrow> True | Inr bs \<Rightarrow> length bs \<le> 1114015"
  shows "\<exists>r. talk_to_robot_simple w tk query = Inr r \<and> response r = e"
proof -
  let ?w = "create_budget 10 w"
  let ?evs = "fst (talk_to_robot_internal ?w tk query (lit ''default'') [] STANDARD_K)"
  have retrieval: "get_top_k_blocks ?w query STANDARD_K = get_top_k_blocks w query STANDARD_K"
    by (simp add: create_budget_def)
  obtain ls ss t where run: "?evs = ls @ ss @ [t]"
    and ls: "ls = [Loading Semantic None]
        \<or> (\<exists>bs. get_top_k_blocks ?w query STANDARD_K = Inr bs
                 \<and> (ls = loading2 bs \<or> ls = loading3 bs))"
    and ss: "list_all is_streaming ss" and t: "is_terminal t"
    using run_events [of ?w tk query "lit ''default''" "[]" STANDARD_K] by blast
  have "Error e \<notin> set ls"
    using ls by auto
  moreover have "Error e \<notin> set ss"
    using ss by (auto simp: list_all_iff)
  ultimately have t_eq: "t = Error e"
    using assms(1) run by simp
  let ?r0 = "\<lparr>response = [], citations = None\<rparr>"
  have "\<exists>r1. simple_loop ?r0 (ls @ ss @ [Error e]) = simple_loop r1 (ss @ [Error e])"
    using ls
  proof (elim disjE exE conjE)
    assume "ls = [Loading Semantic None]"
    then show ?thesis by auto
  next
    fix bs assume bs: "get_top_k_blocks ?w query STANDARD_K = Inr bs"
      and shape: "ls = loading2 bs"
    from bs assms(2) retrieval have "0 + length (map citation_of bs) \<le> 1114015" by simp
    then obtain d where "letter_citations 0 (map citation_of bs) = Inr d"
      using letter_citations_in_range by blast
    with shape show ?thesis by auto
  next
    fix bs assume bs: "get_top_k_blocks ?w query STANDARD_K = Inr bs"
      and shape: "ls = loading3 bs"
    from bs assms(2) retrieval have "0 + length (map citation_of bs) \<le> 1114015" by simp
    then obtain d where "letter_citations 0 (map citation_of bs) = Inr d"
      using letter_citations_in_range by blast
    with shape show ?thesis by auto
  qed
  then obtain r1 where "simple_loop ?r0 ?evs = simple_loop r1 (ss @ [Error e])"
    using run t_eq by auto
  moreover obtain r' where "simple_loop r1 (ss @ [Error e]) = Inr r'" and "response r' = e"
    using simple_loop_error_last [OF ss] by blast
  ultimately show ?thesis
    by (simp add: talk_to_robot_simple_def)
qed

lemma midstream_failure_run:
  "talk_to_robot_internal (create_budget 10 midstream_failure_world) codepoint_tokenizer
     (lit ''q'') (lit ''default'') [] STANDARD_K
   = ([Loading Semantic None, Loading Semantic (Some []), Loading Prompt None,
       Loading Llm None, Streaming (lit ''Hi''), Error (lit ''connection reset'')],
      [CallRetrieval (lit ''q'') STANDARD_K,
       CallModeration [lit ''q'', prompt_string (plain_prompt (lit ''q''))],
       CallCompletion (plain_prompt (lit ''q''))
         (max_tokens_completion codepoint_tokenizer (plain_prompt (lit ''q'')))])"
  by (subst run_generation [where bs = "[]" and prompt = "plain_prompt (lit ''q'')"
        and results = "[False, False]" and chunks = "[Some (lit ''Hi'')]"
        and failure = "Some (lit ''connection reset'')"
        and streamed = "[Streaming (lit ''Hi'')]" and resp = "lit ''Hi''" and err = None])
     (simp_all add: midstream_failure_world_def create_budget_def sample_world_simps
        construct_prompt_plain budget_exceeded_def)

theorem simple_response_is_error_witness:
  "Error (lit ''connection reset'')
     \<in> set (fst (talk_to_robot_internal (create_budget 10 midstream_failure_world)
                   codepoint_tokenizer (lit ''q'') (lit ''default'') [] STANDARD_K))
   \<and> Streaming (lit ''Hi'')
     \<in> set (fst (talk_to_robot_internal (create_budget 10 midstream_failure_world)
                   codepoint_tokenizer (lit ''q'') (lit ''default'') [] STANDARD_K))
   \<and> get_top_k_blocks midstream_failure_world (lit ''q'') STANDARD_K = Inr []
   \<and> (\<exists>r. talk_to_robot_simple midstream_failure_world codepoint_tokenizer (lit ''q'') = Inr r
          \<and> response r = lit ''connection reset'')"
proof -
  have err: "Error (lit ''connection reset'')
     \<in> set (fst (talk_to_robot_internal (create_budget 10 midstream_failure_world)
                   codepoint_tokenizer (lit ''q'') (lit ''default'') [] STANDARD_K))"
    by (simp add: midstream_failure_run)
  have str: "Streaming (lit ''Hi'')
     \<in> set (fst (talk_to_robot_internal (create_budget 10 midstream_failure_world)
                   codepoint_tokenizer (lit ''q'') (lit ''default'') [] STANDARD_K))"
    by (simp add: midstream_failure_run)
  have blocks: "get_top_k_blocks midstream_failure_world (lit ''q'') STANDARD_K = Inr []"
    by (simp add: midstream_failure_world_def sample_world_simps)
  then have "case get_top_k_blocks midstream_failure_world (lit ''q'') STANDARD_K of
               Inl _ \<Rightarrow> True | Inr bs \<Rightarrow> length bs \<le> 1114015"
    by simp
  with err have "\<exists>r. talk_to_robot_simple midstream_failure_world codepoint_tokenizer (lit ''q'')
                      = Inr r \<and> response r = lit ''connection reset''"
    by (rule simple_response_is_error)
  with err str blocks show ?thesis by blast
qed

section \<open>The history loop\<close>

lemma measured_cost_simps:
  "measured_cost tk [] = 0"
  "measured_cost tk (m # ms) = int (length (encode tk (content m))) + measured_cost tk ms"
  "measured_cost tk (xs @ ys) = measured_cost tk xs + measured_cost tk ys"
  "measured_cost tk (rev xs) = measured_cost tk xs"
  by (simp_all add: measured_cost_def rev_map [symmetric] del: rev_map)

lemma measured_cost_nonneg: "0 \<le> measured_cost tk ms"
  by (induction ms) (simp_all add: measured_cost_simps)

lemma measured_cost_butlast: "measured_cost tk (butlast ms) \<le> measured_cost tk ms"
proof (cases "ms = []")
  case True
  then show ?thesis by simp
next
  case False
  then have "ms = butlast ms @ [last ms]" by simp
  then have "measured_cost tk ms = measured_cost tk (butlast ms) + measured_cost tk [last ms]"
    by (metis measured_cost_simps(3))
  then show ?thesis using measured_cost_nonneg [of tk "[last ms]"] by simp
qed

lemma history_step_cost:
  "history_step tk tc m = (entry, tc') \<Longrightarrow> tc' = tc + measured_cost tk [entry]"
  by (auto simp: history_step_def measured_cost_simps Let_def split: if_splits)

lemma history_loop_cost:
  assumes "measured_cost tk acc = tc" and "tc \<le> history_limit"
  shows "measured_cost tk (butlast (history_loop tk tc acc ms)) \<le> history_limit"
  using assms
proof (induction ms arbitrary: tc acc)
  case Nil
  then show ?case
    using measured_cost_butlast [of tk acc] by simp
next
  case (Cons m ms)
  obtain entry tc' where step: "history_step tk tc m = (entry, tc')"
    by (cases "history_step tk tc m") auto
  then have tc': "tc' = tc + measured_cost tk [entry]"
    by (rule history_step_cost)
  show ?case
  proof (cases "tc' > history_limit")
    case True
    with step Cons.prems show ?thesis by simp
  next
    case False
    have "measured_cost tk (acc @ [entry]) = tc'"
      using tc' Cons.prems(1) by (simp add: measured_cost_simps)
    moreover from False have "tc' \<le> history_limit" by simp
    ultimately have "measured_cost tk (butlast (history_loop tk tc' (acc @ [entry]) ms))
                     \<le> history_limit"
      by (rule Cons.IH)
    with step False show ?thesis by simp
  qed
qed

lemma history_loop_kept:
  "\<exists>j tcs. j \<le> length ms \<and> length tcs = j
     \<and> history_loop tk tc acc ms
         = acc @ map2 (\<lambda>tc m. fst (history_step tk tc m)) tcs (take j ms)"
proof (induction ms arbitrary: tc acc)
  case Nil
  show ?case by simp
next
  case (Cons m ms)
  obtain entry tc' where step: "history_step tk tc m = (entry, tc')"
    by (cases "history_step tk tc m") auto
  show ?case
  proof (cases "tc' > history_limit")
    case True
    with step have "history_loop tk tc acc (m # ms)
        = acc @ map2 (\<lambda>tc m. fst (history_step tk tc m)) [tc] (take 1 (m # ms))"
      by simp
    then show ?thesis
      by (intro exI [where x = 1] exI [where x = "[tc]"]) simp
  next
    case False
    from Cons.IH [of tc' "acc @ [entry]"]
    obtain j tcs where j: "j \<le> length ms" and tcs: "length tcs = j"
      and loop: "history_loop tk tc' (acc @ [entry]) ms
         = (acc @ [entry]) @ map2 (\<lambda>tc m. fst (history_step tk tc m)) tcs (take j ms)"
      by blast
    from step False loop have "history_loop tk tc acc (m # ms)
        = acc @ map2 (\<lambda>tc m. fst (history_step tk tc m)) (tc # tcs) (take (Suc j) (m # ms))"
      by simp
    with j tcs show ?thesis
      by (intro exI [where x = "Suc j"] exI [where x = "tc # tcs"]) simp
  qed
qed

lemma history_section_kept:
  "\<exists>j tcs. j \<le> 9 \<and> j \<le> length history \<and> length tcs = j
     \<and> rev (history_loop tk 0 [] (take 9 (rev history)))
         = map2 (\<lambda>tc m. fst (history_step tk tc m)) tcs (drop (length history - j) history)"
proof -
  obtain j tcs where j: "j \<le> length (take 9 (rev history))" and tcs: "length tcs = j"
    and loop: "history_loop tk 0 [] (take 9 (rev history))
         = [] @ map2 (\<lambda>tc m. fst (history_step tk tc m)) tcs (take j (take 9 (rev history)))"
    using history_loop_kept [of "take 9 (rev history)" tk 0 "[]"] by blast
  from j have j9: "j \<le> 9" and jn: "j \<le> length history" by simp_all
  from j9 have "take j (take 9 (rev history)) = take j (rev history)"
    by (simp add: min_absorb1)
  with loop have "history_loop tk 0 [] (take 9 (rev history))
         = map2 (\<lambda>tc m. fst (history_step tk tc m)) tcs (take j (rev history))"
    by simp
  moreover have "length tcs = length (take j (rev history))"
    using tcs jn by simp
  ultimately have "rev (history_loop tk 0 [] (take 9 (rev history)))
         = map2 (\<lambda>tc m. fst (history_step tk tc m)) (rev tcs) (rev (take j (rev history)))"
    by (simp add: rev_map zip_rev)
  also have "rev (take j (rev history)) = drop (length history - j) history"
    by (simp add: rev_take)
  finally show ?thesis
    using j9 jn tcs by (intro exI [where x = j] exI [where x = "rev tcs"]) simp
qed

lemma re_sub_see: "re_sub_citations (lit ''see [12]'') = lit ''see [x]''"
  by (simp add: lit_def is_digit_def)

lemma long_history_loop:
  "history_loop codepoint_tokenizer 0 [] (take 9 (rev long_history))
   = [\<lparr>role = lit ''user'', content = lit ''Q: hi''\<rparr>,
      \<lparr>role = lit ''assistant'', content = lit ''see [x]''\<rparr>,
      \<lparr>role = lit ''user'', content = lit ''Q: '' @ replicate 1100 97\<rparr>]"
proof -
  have s1: "history_step codepoint_tokenizer 0 \<lparr>role = lit ''user'', content = lit ''hi''\<rparr>
            = (\<lparr>role = lit ''user'', content = lit ''Q: hi''\<rparr>, 5)"
    by (simp add: history_step_def codepoint_tokenizer_def lit_def)
  have s2: "history_step codepoint_tokenizer 5 \<lparr>role = lit ''assistant'', content = lit ''see [12]''\<rparr>
            = (\<lparr>role = lit ''assistant'', content = lit ''see [x]''\<rparr>, 12)"
    by (simp add: history_step_def cap_def history_limit_eq codepoint_tokenizer_def lit_def
          is_digit_def)
  have s3: "history_step codepoint_tokenizer 12 \<lparr>role = lit ''user'', content = replicate 1100 97\<rparr>
            = (\<lparr>role = lit ''user'', content = lit ''Q: '' @ replicate 1100 97\<rparr>, 1115)"
    by (simp add: history_step_def codepoint_tokenizer_def) (simp add: lit_def)
  show ?thesis
    by (simp add: long_history_def s1 s2 s3 history_limit_eq)
qed

lemma long_history_assembled:
  "construct_prompt codepoint_tokenizer (lit ''q'') (lit ''default'') long_history []
   = Inr long_history_prompt"
  by (simp add: construct_prompt_def py_slice_back_last_nine long_history_loop
        mode_literals_distinct long_history_prompt_def)
     (simp add: long_history_def)

lemma long_history_costs:
  "measured_cost codepoint_tokenizer (history_messages long_history_prompt) = 1115"
  "measured_cost codepoint_tokenizer (tl (history_messages long_history_prompt)) = 12"
  by (simp_all add: long_history_prompt_def history_messages_def measured_cost_simps
        codepoint_tokenizer_def lit_def)

section \<open>History in the assembled prompt\<close>

lemma tl_rev_butlast: "tl (rev xs) = rev (butlast xs)"
  using butlast_rev [of "rev xs"] by (simp add: rev_swap)

lemma history_messages_of_prompt:
  "history_messages (sys # hs @ [usr]) = hs"
  by (simp add: history_messages_def)

text \<open>
  C5, as amended. For every assembled prompt, the total measured token cost of the history
  messages in the prompt other than the oldest one (the last one collected, the one that
  may cross the threshold) is at most \<open>int(NUM_TOKENS * HISTORY_FRACTION)\<close>, which is
  1023 and lies below \<open>NUM_TOKENS * HISTORY_FRACTION\<close>.
\<close>

theorem history_cost_bound:
  assumes "construct_prompt tk query mode history context = Inr p"
  shows "measured_cost tk (tl (history_messages p)) \<le> history_limit
       \<and> of_int history_limit \<le> of_int NUM_TOKENS * HISTORY_FRACTION"
proof -
  let ?r = "history_loop tk 0 [] (take 9 (rev history))"
  obtain s q where "p = \<lparr>role = lit ''system'', content = s\<rparr> # rev ?r
                        @ [\<lparr>role = lit ''user'', content = q @ lit ''Q: '' @ query\<rparr>]"
    using construct_prompt_shape [OF assms] by blast
  then have "history_messages p = rev ?r"
    by (simp add: history_messages_of_prompt)
  then have "tl (history_messages p) = rev (butlast ?r)"
    by (simp add: tl_rev_butlast)
  then have "measured_cost tk (tl (history_messages p)) = measured_cost tk (butlast ?r)"
    by (simp add: measured_cost_simps)
  moreover have "measured_cost tk (butlast ?r) \<le> history_limit"
    by (rule history_loop_cost) (simp_all add: measured_cost_simps history_limit_eq)
  moreover have "of_int history_limit \<le> of_int NUM_TOKENS * HISTORY_FRACTION"
    by (simp add: history_limit_eq NUM_TOKENS_def HISTORY_FRACTION_def)
  ultimately show ?thesis by simp
qed

theorem history_cost_bound_witness:
  "construct_prompt codepoint_tokenizer (lit ''q'') (lit ''default'') long_history []
     = Inr long_history_prompt
   \<and> measured_cost codepoint_tokenizer (tl (history_messages long_history_prompt)) = 12
   \<and> measured_cost codepoint_tokenizer (tl (history_messages long_history_prompt)) \<le> history_limit
   \<and> of_int history_limit \<le> of_int NUM_TOKENS * HISTORY_FRACTION"
  using history_cost_bound [OF long_history_assembled]
  by (simp add: long_history_assembled long_history_costs)

text \<open>
  C5, as stated, fails: the user message that crosses the threshold is kept whole, so the
  history messages of this prompt cost 1115 tokens, above \<open>NUM_TOKENS * HISTORY_FRACTION\<close>.
\<close>

theorem history_cost_counterexample:
  "construct_prompt codepoint_tokenizer (lit ''q'') (lit ''default'') long_history []
     = Inr long_history_prompt
   \<and> measured_cost codepoint_tokenizer (history_messages long_history_prompt) = 1115
   \<and> \<not> of_int (measured_cost codepoint_tokenizer (history_messages long_history_prompt))
         \<le> of_int NUM_TOKENS * HISTORY_FRACTION"
  by (simp add: long_history_assembled long_history_costs NUM_TOKENS_def HISTORY_FRACTION_def)

text \<open>
  C9. For every history, the assembled prompt is the system message, then the converted
  forms of the last \<open>j\<close> entries of the history for some \<open>j \<le> 10\<close>, in chronological order,
  then the final user message. Each converted form is what the history loop makes of the
  entry at the token count it has reached.
\<close>

theorem history_from_last_entries:
  assumes "construct_prompt tk query mode history context = Inr p"
  shows "\<exists>sys usr j tcs. j \<le> 10 \<and> j \<le> length history \<and> length tcs = j
           \<and> role sys = lit ''system'' \<and> role usr = lit ''user''
           \<and> p = [sys] @ map2 (\<lambda>tc m. fst (history_step tk tc m)) tcs
                          (drop (length history - j) history) @ [usr]"
proof -
  let ?r = "history_loop tk 0 [] (take 9 (rev history))"
  obtain s q where p: "p = \<lparr>role = lit ''system'', content = s\<rparr> # rev ?r
                        @ [\<lparr>role = lit ''user'', content = q @ lit ''Q: '' @ query\<rparr>]"
    using construct_prompt_shape [OF assms] by blast
  obtain j tcs where "j \<le> 9" and "j \<le> length history" and "length tcs = j"
    and "rev ?r = map2 (\<lambda>tc m. fst (history_step tk tc m)) tcs (drop (length history - j) history)"
    using history_section_kept [of history tk] by blast
  with p show ?thesis
    by (intro exI [where x = "\<lparr>role = lit ''system'', content = s\<rparr>"]
              exI [where x = "\<lparr>role = lit ''user'', content = q @ lit ''Q: '' @ query\<rparr>"]
              exI [where x = j] exI [where x = tcs]) simp
qed

theorem history_from_last_entries_witness:
  "construct_prompt codepoint_tokenizer (lit ''q'') (lit ''default'') long_history []
     = Inr long_history_prompt
   \<and> (\<exists>sys usr j tcs. j \<le> 10 \<and> j \<le> length long_history \<and> length tcs = j
           \<and> role sys = lit ''system'' \<and> role usr = lit ''user''
           \<and> long_history_prompt
               = [sys] @ map2 (\<lambda>tc m. fst (history_step codepoint_tokenizer tc m)) tcs
                          (drop (length long_history - j) long_history) @ [usr])"
  using history_from_last_entries [OF long_history_assembled] long_history_assembled
  by blast

section \<open>The context loop\<close>

lemma rendered_simps:
  "rendered i [] = []"
  "block_str i b = Inr s \<Longrightarrow> rendered i (b # bs) = s # rendered (Suc i) bs"
  by (simp_all add: rendered_def)

lemma running_count_simps:
  "running_count tk tc strs 0 = tc"
  "running_count tk tc (s # strs) (Suc j) = running_count tk (tc + int (length (encode tk s))) strs j"
  by (simp_all add: running_count_def)

lemma crosses_iff:
  "crosses tk tc strs j
   \<longleftrightarrow> context_limit < running_count tk tc strs j + int (length (encode tk (strs ! j)))"
proof -
  have aux: "(of_int 4095 * (1 / 2) < (of_int x :: rat)) \<longleftrightarrow> 2047 < x" for x :: int
  proof -
    have "(of_int 4095 * (1 / 2) < (of_int x :: rat)) \<longleftrightarrow> (of_int 4095 :: rat) < of_int (2 * x)"
      by (simp add: field_simps)
    also have "\<dots> \<longleftrightarrow> 4095 < 2 * x"
      by (simp only: of_int_less_iff)
    finally show ?thesis by auto
  qed
  show ?thesis
    unfolding crosses_def context_limit_eq NUM_TOKENS_def CONTEXT_FRACTION_def
    by (rule aux)
qed

lemma crosses_simps:
  "crosses tk tc (s # strs) 0 \<longleftrightarrow> context_limit < tc + int (length (encode tk s))"
  "crosses tk tc (s # strs) (Suc j) \<longleftrightarrow> crosses tk (tc + int (length (encode tk s))) strs j"
  by (simp_all add: crosses_iff running_count_simps)

lemma first_crossing_simps:
  "first_crossing tk tc [] = 0"
  "first_crossing tk tc (s # strs)
   = (if context_limit < tc + int (length (encode tk s)) then 0
      else Suc (first_crossing tk (tc + int (length (encode tk s))) strs))"
proof -
  show "first_crossing tk tc [] = 0"
    by (simp add: first_crossing_def)
  have upt: "[0 ..< length (s # strs)] = 0 # map Suc [0 ..< length strs]"
    by (simp add: upt_conv_Cons map_Suc_upt del: upt_Suc)
  show "first_crossing tk tc (s # strs)
   = (if context_limit < tc + int (length (encode tk s)) then 0
      else Suc (first_crossing tk (tc + int (length (encode tk s))) strs))"
    unfolding first_crossing_def upt
    by (simp add: takeWhile_map crosses_simps comp_def)
qed

lemma context_loop_as_specified:
  "i + length bs \<le> 1114015 \<Longrightarrow>
   context_loop tk i tc sp bs = Inr (sp @ blocks_appended_spec tk i tc bs)"
proof (induction bs arbitrary: i tc sp)
  case Nil
  show ?case
    by (simp add: blocks_appended_spec_def rendered_simps first_crossing_simps)
next
  case (Cons b bs)
  then have "i < 1114015" by simp
  then obtain s where s: "block_str i b = Inr s"
    using block_str_in_range by blast
  let ?n = "int (length (encode tk s))"
  show ?case
  proof (cases "context_limit < tc + ?n")
    case True
    then show ?thesis
      by (simp add: s blocks_appended_spec_def rendered_simps first_crossing_simps
            running_count_simps)
  next
    case False
    from Cons.prems have "Suc i + length bs \<le> 1114015" by simp
    then have "context_loop tk (Suc i) (tc + ?n) (sp @ s) bs
               = Inr ((sp @ s) @ blocks_appended_spec tk (Suc i) (tc + ?n) bs)"
      by (rule Cons.IH)
    with False show ?thesis
      by (simp add: s blocks_appended_spec_def rendered_simps first_crossing_simps
            running_count_simps Let_def)
  qed
qed

lemma sample_block_strs:
  "block_str 0 short_block = Inr (lit ''[a] T - A,B - 2020\<newline>text\<newline>\<newline>'')"
  "block_str 1 long_block
   = Inr (lit ''[b] T - A,B - 2020\<newline>'' @ replicate 2100 120 @ lit ''\<newline>\<newline>'')"
  by (simp_all add: block_str_def py_chr_def short_block_def long_block_def lit_def)

lemma source_prompt_length: "length SOURCE_PROMPT = 318"
  by (simp add: SOURCE_PROMPT_def lit_def)

lemma sample_context_appended:
  "blocks_appended_spec codepoint_tokenizer 0 318 sample_context
   = lit ''[a] T - A,B - 2020\<newline>text\<newline>\<newline>''
     @ lit ''[b] T - A,B - 2020\<newline>'' @ replicate 1685 120 @ lit '' ...''"
proof -
  obtain s3 where s3: "block_str 2 short_block = Inr s3"
    using block_str_in_range [of 2 short_block] by auto
  have strs: "rendered 0 sample_context
     = [lit ''[a] T - A,B - 2020\<newline>text\<newline>\<newline>'',
        lit ''[b] T - A,B - 2020\<newline>'' @ replicate 2100 120 @ lit ''\<newline>\<newline>'',
        s3]"
    using sample_block_strs s3
    by (simp add: sample_context_def rendered_simps numeral_2_eq_2)
  have first: "first_crossing codepoint_tokenizer 318
     [lit ''[a] T - A,B - 2020\<newline>text\<newline>\<newline>'',
      lit ''[b] T - A,B - 2020\<newline>'' @ replicate 2100 120 @ lit ''\<newline>\<newline>'',
      s3] = Suc 0"
    by (simp add: first_crossing_simps context_limit_eq codepoint_tokenizer_def lit_def)
  have count: "running_count codepoint_tokenizer 318
     [lit ''[a] T - A,B - 2020\<newline>text\<newline>\<newline>'',
      lit ''[b] T - A,B - 2020\<newline>'' @ replicate 2100 120 @ lit ''\<newline>\<newline>'',
      s3] (Suc 0) = 343"
    by (simp add: running_count_def codepoint_tokenizer_def lit_def)
  have capped: "cap codepoint_tokenizer
       (lit ''[b] T - A,B - 2020\<newline>'' @ replicate 2100 120 @ lit ''\<newline>\<newline>'') 1704
     = lit ''[b] T - A,B - 2020\<newline>'' @ replicate 1685 120 @ lit '' ...''"
    by (simp add: cap_def codepoint_tokenizer_def lit_def)
  show ?thesis
    by (simp add: blocks_appended_spec_def strs first count context_limit_eq capped)
qed

section \<open>Reference blocks in the system message\<close>

text \<open>
  C7. For every context of at most 1114015 blocks (so that \<open>chr\<close> finds a letter for each),
  the context loop appends to the system text exactly what the specification describes:
  the rendered blocks before the first one whose whole rendered form would push the
  running token count past \<open>NUM_TOKENS * CONTEXT_FRACTION\<close>, whole and in input order, then
  that block capped to the remaining budget, and nothing of the later blocks. The system
  message of the assembled prompt is this text, stripped, followed by the history note
  when there is a history.
\<close>

theorem context_blocks_as_specified:
  assumes "length context \<le> 1114015"
  shows "context_loop tk 0 (int (length (encode tk SOURCE_PROMPT))) SOURCE_PROMPT context
           = Inr (SOURCE_PROMPT
                  @ blocks_appended_spec tk 0 (int (length (encode tk SOURCE_PROMPT))) context)
       \<and> (construct_prompt tk query mode history context = Inr p \<longrightarrow>
            content (hd p)
              = strip (strip (SOURCE_PROMPT
                  @ blocks_appended_spec tk 0 (int (length (encode tk SOURCE_PROMPT))) context)
                  @ (if length history > 0 then HISTORY_NOTE else [])))"
proof -
  have loop: "context_loop tk 0 (int (length (encode tk SOURCE_PROMPT))) SOURCE_PROMPT context
           = Inr (SOURCE_PROMPT
                  @ blocks_appended_spec tk 0 (int (length (encode tk SOURCE_PROMPT))) context)"
    using assms by (intro context_loop_as_specified) simp
  then show ?thesis
    by (auto simp: construct_prompt_def Let_def split: if_splits)
qed

theorem context_blocks_as_specified_witness:
  "length sample_context \<le> 1114015
   \<and> context_loop codepoint_tokenizer 0 (int (length (encode codepoint_tokenizer SOURCE_PROMPT)))
       SOURCE_PROMPT sample_context
     = Inr (SOURCE_PROMPT @ lit ''[a] T - A,B - 2020\<newline>text\<newline>\<newline>''
            @ lit ''[b] T - A,B - 2020\<newline>'' @ replicate 1685 120 @ lit '' ...'')"
proof -
  have len: "length sample_context \<le> 1114015"
    by (simp add: sample_context_def)
  have tc: "int (length (encode codepoint_tokenizer SOURCE_PROMPT)) = 318"
    by (simp add: codepoint_tokenizer_def source_prompt_length)
  from context_blocks_as_specified [OF len, of codepoint_tokenizer]
  have "context_loop codepoint_tokenizer 0 (int (length (encode codepoint_tokenizer SOURCE_PROMPT)))
       SOURCE_PROMPT sample_context
     = Inr (SOURCE_PROMPT @ blocks_appended_spec codepoint_tokenizer 0
              (int (length (encode codepoint_tokenizer SOURCE_PROMPT))) sample_context)"
    by blast
  then show ?thesis
    by (simp only: len tc sample_context_appended simp_thms)
qed

end
